theory Spec2Isabelle
  imports Complex_Main "HOL-Library.AList"
begin

text \<open>
  A model of \<^verbatim>\<open>stock_analyzer.py\<close>: the metrics engine \<^verbatim>\<open>calculate_metrics\<close>, the
  numbers \<^verbatim>\<open>display_key_metrics\<close> and the statistical summary hand to the display, and
  the control flow of the main script around the data provider. The pandas operations the
  script calls (\<^verbatim>\<open>pct_change\<close>, \<^verbatim>\<open>cumprod\<close>, \<^verbatim>\<open>rolling\<close>, \<^verbatim>\<open>mean\<close>, \<^verbatim>\<open>std\<close>,
  \<^verbatim>\<open>iloc\<close>, column assignment) are written out as list functions with their default
  arguments.
\<close>

section \<open>Cells of a numeric column\<close>

text \<open>
  A pandas column of dtype float64 holds finite numbers, the two infinities and the
  missing-value marker NaN. Finite numbers are taken as reals: rounding, overflow and the
  sign of zero are not part of this model (a zero divisor is read as +0).
\<close>

datatype f64 = Fin real | PInf | NInf | NaN

fun f64_neg :: "f64 \<Rightarrow> f64" where
  "f64_neg (Fin a) = Fin (- a)"
| "f64_neg PInf = NInf"
| "f64_neg NInf = PInf"
| "f64_neg NaN = NaN"

fun f64_add :: "f64 \<Rightarrow> f64 \<Rightarrow> f64" where
  "f64_add (Fin a) (Fin b) = Fin (a + b)"
| "f64_add (Fin a) PInf = PInf"
| "f64_add (Fin a) NInf = NInf"
| "f64_add PInf (Fin b) = PInf"
| "f64_add PInf PInf = PInf"
| "f64_add PInf NInf = NaN"
| "f64_add NInf (Fin b) = NInf"
| "f64_add NInf PInf = NaN"
| "f64_add NInf NInf = NInf"
| "f64_add NaN y = NaN"
| "f64_add x NaN = NaN"

definition f64_sub :: "f64 \<Rightarrow> f64 \<Rightarrow> f64" where
  "f64_sub x y = f64_add x (f64_neg y)"

fun f64_mul :: "f64 \<Rightarrow> f64 \<Rightarrow> f64" where
  "f64_mul (Fin a) (Fin b) = Fin (a * b)"
| "f64_mul (Fin a) PInf = (if a = 0 then NaN else if 0 < a then PInf else NInf)"
| "f64_mul (Fin a) NInf = (if a = 0 then NaN else if 0 < a then NInf else PInf)"
| "f64_mul PInf (Fin b) = (if b = 0 then NaN else if 0 < b then PInf else NInf)"
| "f64_mul NInf (Fin b) = (if b = 0 then NaN else if 0 < b then NInf else PInf)"
| "f64_mul PInf PInf = PInf"
| "f64_mul PInf NInf = NInf"
| "f64_mul NInf PInf = NInf"
| "f64_mul NInf NInf = PInf"
| "f64_mul NaN y = NaN"
| "f64_mul x NaN = NaN"

fun f64_div :: "f64 \<Rightarrow> f64 \<Rightarrow> f64" where
  "f64_div (Fin a) (Fin b) =
     (if b \<noteq> 0 then Fin (a / b)
      else if a = 0 then NaN else if 0 < a then PInf else NInf)"
| "f64_div (Fin a) PInf = Fin 0"
| "f64_div (Fin a) NInf = Fin 0"
| "f64_div PInf (Fin b) = (if 0 \<le> b then PInf else NInf)"
| "f64_div NInf (Fin b) = (if 0 \<le> b then NInf else PInf)"
| "f64_div PInf PInf = NaN"
| "f64_div PInf NInf = NaN"
| "f64_div NInf PInf = NaN"
| "f64_div NInf NInf = NaN"
| "f64_div NaN y = NaN"
| "f64_div x NaN = NaN"

fun f64_sqrt :: "f64 \<Rightarrow> f64" where
  "f64_sqrt (Fin a) = (if a < 0 then NaN else Fin (sqrt a))"
| "f64_sqrt PInf = PInf"
| "f64_sqrt NInf = NaN"
| "f64_sqrt NaN = NaN"

fun isna :: "f64 \<Rightarrow> bool" where
  "isna NaN = True"
| "isna x = False"

fun isfinite :: "f64 \<Rightarrow> bool" where
  "isfinite (Fin a) = True"
| "isfinite x = False"

section \<open>Series operations of pandas used by the analyzer\<close>

type_synonym series = "f64 list"

text \<open>\<^verbatim>\<open>s.shift(1)\<close>: every cell moves one row down, the first row becomes NaN.\<close>

definition shift :: "series \<Rightarrow> series" where
  "shift xs = take (length xs) (NaN # xs)"

text \<open>
  \<^verbatim>\<open>s.ffill()\<close>: a missing cell takes the last value seen before it. It is the
  padding step \<^verbatim>\<open>pct_change\<close> applies by default before dividing (pandas up to 2.x);
  on a column without missing cells it changes nothing.
\<close>

fun ffill_from :: "f64 \<Rightarrow> series \<Rightarrow> series" where
  "ffill_from prev [] = []"
| "ffill_from prev (x # xs) =
     (if isna x then prev # ffill_from prev xs else x # ffill_from x xs)"

definition ffill :: "series \<Rightarrow> series" where
  "ffill xs = ffill_from NaN xs"

text \<open>\<^verbatim>\<open>s.pct_change()\<close> is \<^verbatim>\<open>data / data.shift(1) - 1\<close> on the padded data.\<close>

definition pct_change :: "series \<Rightarrow> series" where
  "pct_change xs =
     (let data = ffill xs
      in map (\<lambda>(d, p). f64_sub (f64_div d p) (Fin 1)) (zip data (shift data)))"

text \<open>Arithmetic of a series with a scalar is cell by cell.\<close>

definition radd :: "real \<Rightarrow> series \<Rightarrow> series" where
  "radd c xs = map (\<lambda>x. f64_add (Fin c) x) xs"

definition sub_scalar :: "series \<Rightarrow> real \<Rightarrow> series" where
  "sub_scalar xs c = map (\<lambda>x. f64_sub x (Fin c)) xs"

definition mul_scalar :: "series \<Rightarrow> real \<Rightarrow> series" where
  "mul_scalar xs c = map (\<lambda>x. f64_mul x (Fin c)) xs"

text \<open>
  \<^verbatim>\<open>s.cumprod()\<close> skips missing cells: they count as 1 in the running product
  (numpy's cumprod, left to right) and are put back as NaN in the result.
\<close>

fun accum_prod :: "f64 \<Rightarrow> series \<Rightarrow> series" where
  "accum_prod a [] = []"
| "accum_prod a (x # xs) = f64_mul a x # accum_prod (f64_mul a x) xs"

fun np_cumprod :: "series \<Rightarrow> series" where
  "np_cumprod [] = []"
| "np_cumprod (x # xs) = x # accum_prod x xs"

definition cumprod :: "series \<Rightarrow> series" where
  "cumprod xs =
     map (\<lambda>(x, r). if isna x then NaN else r)
       (zip xs (np_cumprod (map (\<lambda>x. if isna x then Fin 1 else x) xs)))"

text \<open>
  Reductions skip missing cells. \<^verbatim>\<open>s.mean()\<close> is the sum of the observations over
  their number, NaN when there is none; \<^verbatim>\<open>s.std()\<close> uses the divisor n - 1
  (ddof = 1) and is NaN with fewer than two observations.
\<close>

definition dropna :: "series \<Rightarrow> series" where
  "dropna xs = filter (\<lambda>x. \<not> isna x) xs"

definition f64_sum :: "series \<Rightarrow> f64" where
  "f64_sum xs = foldl f64_add (Fin 0) xs"

definition series_mean :: "series \<Rightarrow> f64" where
  "series_mean xs =
     (let obs = dropna xs
      in if obs = [] then NaN else f64_div (f64_sum obs) (Fin (real (length obs))))"

definition series_var :: "series \<Rightarrow> f64" where
  "series_var xs =
     (let obs = dropna xs; n = length obs
      in if n \<le> 1 then NaN
         else let avg = f64_div (f64_sum obs) (Fin (real n))
              in f64_div (f64_sum (map (\<lambda>x. f64_mul (f64_sub avg x) (f64_sub avg x)) obs))
                   (Fin (real (n - 1))))"

definition series_std :: "series \<Rightarrow> f64" where
  "series_std xs = f64_sqrt (series_var xs)"

text \<open>
  \<^verbatim>\<open>s.rolling(window=w)\<close>: the window at row i is the rows i-w+1 .. i that exist;
  infinities are read as missing; with the default \<^verbatim>\<open>min_periods = w\<close> the statistic is
  computed only when the window holds w observations, and is NaN otherwise.
\<close>

definition inf_to_nan :: "f64 \<Rightarrow> f64" where
  "inf_to_nan x = (if isfinite x then x else NaN)"

definition window_at :: "nat \<Rightarrow> series \<Rightarrow> nat \<Rightarrow> series" where
  "window_at w xs i = drop (i + 1 - w) (take (i + 1) xs)"

definition rolling :: "nat \<Rightarrow> (series \<Rightarrow> f64) \<Rightarrow> series \<Rightarrow> series" where
  "rolling w stat xs =
     map (\<lambda>i. let obs = dropna (map inf_to_nan (window_at w xs i))
              in if w \<le> length obs then stat obs else NaN)
       [0..<length xs]"

definition rolling_mean :: "nat \<Rightarrow> series \<Rightarrow> series" where
  "rolling_mean w xs = rolling w series_mean xs"

definition rolling_std :: "nat \<Rightarrow> series \<Rightarrow> series" where
  "rolling_std w xs = rolling w series_std xs"

section \<open>The table\<close>

text \<open>
  A DataFrame is a row index (the dates, as day numbers) and an ordered list of named
  columns. Reading a column that is absent raises KeyError; \<^verbatim>\<open>df[name] = s\<close>
  replaces the column of that name where it stands, or appends a new one.
\<close>

datatype py_error = KeyError string | IndexError | TypeError | OtherError string

record dataframe =
  index :: "int list"
  columns :: "(string \<times> series) list"

definition df_empty :: "dataframe \<Rightarrow> bool" where
  "df_empty df = (index df = [] \<or> columns df = [])"

definition get_col :: "dataframe \<Rightarrow> string \<Rightarrow> py_error + series" where
  "get_col df name =
     (case map_of (columns df) name of None \<Rightarrow> Inl (KeyError name) | Some s \<Rightarrow> Inr s)"

definition set_col :: "dataframe \<Rightarrow> string \<Rightarrow> series \<Rightarrow> dataframe" where
  "set_col df name s = df\<lparr>columns := AList.update name s (columns df)\<rparr>"

definition has_col :: "dataframe \<Rightarrow> string \<Rightarrow> bool" where
  "has_col df name = (map_of (columns df) name \<noteq> None)"

text \<open>Every column of a DataFrame has one cell per row of the index.\<close>

definition aligned :: "dataframe \<Rightarrow> bool" where
  "aligned df = list_all (\<lambda>c. length (snd c) = length (index df)) (columns df)"

section \<open>calculate\_metrics\<close>

text \<open>
  \<^verbatim>\<open>calculate_metrics(df)\<close> returns None for an empty table. Otherwise it assigns
  six columns to the table it was given and returns that table. The only statement that
  can raise is the first read of \<^verbatim>\<open>df['Close']\<close>; \<^verbatim>\<open>df['Daily_Return']\<close> is read
  back right after it was assigned, so \<open>dr\<close> below is that column.
\<close>

definition calculate_metrics :: "dataframe \<Rightarrow> py_error + dataframe option" where
  "calculate_metrics df =
     (if df_empty df then Inr None
      else case get_col df ''Close'' of
        Inl e \<Rightarrow> Inl e
      | Inr close \<Rightarrow>
          let dr = pct_change close;
              df1 = set_col df ''Daily_Return'' dr;
              df2 = set_col df1 ''Cumulative_Return'' (sub_scalar (cumprod (radd 1 dr)) 1);
              df3 = set_col df2 ''MA_20'' (rolling_mean 20 close);
              df4 = set_col df3 ''MA_50'' (rolling_mean 50 close);
              df5 = set_col df4 ''MA_200'' (rolling_mean 200 close);
              df6 = set_col df5 ''Volatility'' (mul_scalar (rolling_std 20 dr) (sqrt 252))
          in Inr (Some df6))"

text \<open>
  The function mutates the object it is given. With tables held in a store of objects,
  the call writes the new columns to the cell of the argument and returns the same
  reference; when it raises or returns None nothing has been written yet.
\<close>

type_synonym ref = nat
type_synonym heap = "ref \<Rightarrow> dataframe"

definition calculate_metrics_inplace :: "heap \<Rightarrow> ref \<Rightarrow> (py_error + ref option) \<times> heap" where
  "calculate_metrics_inplace h r =
     (case calculate_metrics (h r) of
        Inl e \<Rightarrow> (Inl e, h)
      | Inr None \<Rightarrow> (Inr None, h)
      | Inr (Some df') \<Rightarrow> (Inr (Some r), h(r := df')))"

section \<open>display\_key\_metrics and the statistical summary\<close>

definition then_do :: "'e + 'a \<Rightarrow> ('a \<Rightarrow> 'e + 'b) \<Rightarrow> 'e + 'b" where
  "then_do r f = (case r of Inl e \<Rightarrow> Inl e | Inr v \<Rightarrow> f v)"

text \<open>\<^verbatim>\<open>s.iloc[i]\<close>: a negative position counts from the end; out of range raises IndexError.\<close>

definition iloc :: "series \<Rightarrow> int \<Rightarrow> py_error + f64" where
  "iloc xs i =
     (if 0 \<le> i \<and> i < int (length xs) then Inr (xs ! nat i)
      else if i < 0 \<and> - i \<le> int (length xs) then Inr (xs ! nat (int (length xs) + i))
      else Inl IndexError)"

type_synonym info = "(string \<times> string) list"

text \<open>
  The numbers \<^verbatim>\<open>display_key_metrics\<close> computes, before they are formatted to two
  decimals: the total return and the latest change are percentages (the quotient times
  100, shown with a trailing percent sign). The statements run in the order of the
  source, so the first column or position that is missing decides the exception. The
  company information is a parameter the function does not use.
\<close>

record key_metrics =
  current_price :: f64
  price_change_pct :: f64
  total_return :: f64
  avg_volume :: f64
  volatility :: f64

definition display_key_metrics :: "dataframe \<Rightarrow> info option \<Rightarrow> py_error + key_metrics" where
  "display_key_metrics df stock_info =
     then_do (get_col df ''Close'') (\<lambda>close.
     then_do (iloc close (- 1)) (\<lambda>last.
     then_do (iloc close (- 2)) (\<lambda>prev.
     then_do (iloc close 0) (\<lambda>first.
     then_do (get_col df ''Volume'') (\<lambda>vol.
     then_do (if has_col df ''Volatility''
              then then_do (get_col df ''Volatility'') (\<lambda>v.
                   then_do (iloc v (- 1)) (\<lambda>x. Inr (f64_mul x (Fin 100))))
              else Inr (Fin 0)) (\<lambda>vola.
       Inr \<lparr>current_price = last,
            price_change_pct = f64_mul (f64_div (f64_sub last prev) prev) (Fin 100),
            total_return = f64_mul (f64_div (f64_sub last first) first) (Fin 100),
            avg_volume = series_mean vol,
            volatility = vola\<rparr>))))))"

text \<open>
  The statistical summary built in the main script from the Daily\_Return column; the
  minimum and maximum skip missing cells like the other reductions.
\<close>

fun f64_less :: "f64 \<Rightarrow> f64 \<Rightarrow> bool" where
  "f64_less (Fin a) (Fin b) = (a < b)"
| "f64_less (Fin a) PInf = True"
| "f64_less NInf (Fin b) = True"
| "f64_less NInf PInf = True"
| "f64_less x y = False"

definition series_min :: "series \<Rightarrow> f64" where
  "series_min xs =
     (case dropna xs of [] \<Rightarrow> NaN
      | y # ys \<Rightarrow> foldl (\<lambda>a b. if f64_less b a then b else a) y ys)"

definition series_max :: "series \<Rightarrow> f64" where
  "series_max xs =
     (case dropna xs of [] \<Rightarrow> NaN
      | y # ys \<Rightarrow> foldl (\<lambda>a b. if f64_less a b then b else a) y ys)"

definition sharpe_approx :: "series \<Rightarrow> f64" where
  "sharpe_approx dr = f64_mul (f64_div (series_mean dr) (series_std dr)) (Fin (sqrt 252))"

record summary =
  mean_return :: f64
  std_deviation :: f64
  min_return :: f64
  max_return :: f64
  sharpe_ratio :: f64

definition summary_stats :: "dataframe \<Rightarrow> py_error + summary" where
  "summary_stats df =
     then_do (get_col df ''Daily_Return'') (\<lambda>dr.
       Inr \<lparr>mean_return = f64_mul (series_mean dr) (Fin 100),
            std_deviation = f64_mul (series_std dr) (Fin 100),
            min_return = f64_mul (series_min dr) (Fin 100),
            max_return = f64_mul (series_max dr) (Fin 100),
            sharpe_ratio = sharpe_approx dr\<rparr>)"

section \<open>The main script\<close>

text \<open>
  The data provider is a parameter: for a ticker and a period it either raises or returns
  the history table and the company information. \<^verbatim>\<open>get_stock_data\<close> turns every
  exception into a triple of None.
\<close>

type_synonym provider = "string \<Rightarrow> string \<Rightarrow> py_error + (dataframe \<times> info)"

definition get_stock_data ::
  "provider \<Rightarrow> string \<Rightarrow> string \<Rightarrow> string option \<times> dataframe option \<times> info option" where
  "get_stock_data yf ticker period =
     (case yf ticker period of
        Inl e \<Rightarrow> (None, None, None)
      | Inr (hist, stock_info) \<Rightarrow> (Some ticker, Some hist, Some stock_info))"

text \<open>\<^verbatim>\<open>str.upper()\<close> on ASCII letters.\<close>

definition upper :: "string \<Rightarrow> string" where
  "upper s =
     map (\<lambda>c. let n = (of_char c :: nat) in if 97 \<le> n \<and> n \<le> 122 then char_of (n - 32) else c) s"

text \<open>
  What one run of the script shows, or the exception it ends with. Charts and the company
  information block are rendering only and are left out (so are the two switches that
  only select charts); messages are given without their leading pictograph. An empty
  string is the only ticker Python reads as false. On the success branch
  \<^verbatim>\<open>calculate_metrics\<close> is called on a non-empty table, so its result is never None; the
  None case below is the TypeError that subscripting None would raise.
\<close>

datatype ui =
    StWarning string
  | StError string
  | StInfo string
  | KeyMetrics key_metrics
  | Summary summary
  | Download string

definition unable_msg :: "string \<Rightarrow> string" where
  "unable_msg ticker_input =
     ''Unable to fetch data for '' @ [CHR 0x27] @ ticker_input @ [CHR 0x27] @
     ''. Please check the ticker symbol and try again.''"

definition tip_msg :: string where
  "tip_msg =
     ''**Tip:** Try using the official stock ticker symbol (e.g., AAPL for Apple, MSFT for Microsoft)''"

definition missing_msg :: string where
  "missing_msg = ''Please enter a stock ticker or company name to begin analysis.''"

definition main_logic ::
  "provider \<Rightarrow> bool \<Rightarrow> string \<Rightarrow> string \<Rightarrow> bool \<Rightarrow> py_error + ui list" where
  "main_logic yf analyze_button ticker_input time_period show_returns =
     (if analyze_button \<and> ticker_input \<noteq> [] then
        (case get_stock_data yf (upper ticker_input) time_period of
           (stock, hist_data, stock_info) \<Rightarrow>
             (case hist_data of
                None \<Rightarrow> Inr [StError (unable_msg ticker_input), StInfo tip_msg]
              | Some hist \<Rightarrow>
                  if df_empty hist
                  then Inr [StError (unable_msg ticker_input), StInfo tip_msg]
                  else
                    then_do (calculate_metrics hist) (\<lambda>res.
                      case res of
                        None \<Rightarrow> Inl TypeError
                      | Some enriched \<Rightarrow>
                          then_do (display_key_metrics enriched stock_info) (\<lambda>km.
                          then_do (if show_returns
                                   then then_do (summary_stats enriched) (\<lambda>s. Inr [Summary s])
                                   else Inr []) (\<lambda>stats.
                            Inr ([KeyMetrics km] @ stats @
                                 [Download (ticker_input @ ''_'' @ time_period @ ''_data.csv'')]))))))
      else if analyze_button \<and> ticker_input = [] then Inr [StWarning missing_msg]
      else Inr [])"

section \<open>The quantities the specification names\<close>

text \<open>
  The arithmetic mean and the sample standard deviation (divisor n - 1) of a list of
  numbers, the closes \<open>close[i-k+1 .. i]\<close> of a window, and the returns
  \<open>close[j]/close[j-1] - 1\<close> for \<open>j\<close> from \<open>lo\<close> to \<open>hi\<close>, as the
  specification writes them.
\<close>

definition mean :: "real list \<Rightarrow> real" where
  "mean ys = sum_list ys / real (length ys)"

definition sample_std :: "real list \<Rightarrow> real" where
  "sample_std ys =
     sqrt (sum_list (map (\<lambda>y. (y - mean ys)\<^sup>2) ys) / (real (length ys) - 1))"

definition closes_window :: "real list \<Rightarrow> nat \<Rightarrow> nat \<Rightarrow> real list" where
  "closes_window cs k i = map (\<lambda>j. cs ! j) [i + 1 - k..<i + 1]"

definition returns_window :: "real list \<Rightarrow> nat \<Rightarrow> nat \<Rightarrow> real list" where
  "returns_window cs lo hi = map (\<lambda>j. cs ! j / cs ! (j - 1) - 1) [lo..<hi + 1]"

text \<open>
  A bar sequence: a table whose columns all have one cell per row and whose Close column
  holds the numbers \<open>cs\<close>, one close per trading day.
\<close>

definition bar_table :: "dataframe \<Rightarrow> real list \<Rightarrow> bool" where
  "bar_table df cs = (aligned df \<and> get_col df ''Close'' = Inr (map Fin cs))"

text \<open>The names of the columns \<^verbatim>\<open>calculate_metrics\<close> assigns.\<close>

definition derived_names :: "string list" where
  "derived_names =
     [''Daily_Return'', ''Cumulative_Return'', ''MA_20'', ''MA_50'', ''MA_200'', ''Volatility'']"


text \<open>
  A table to run the functions on: one row per close, numbered from 0, with the raw
  columns of the provider (every price column equal to the closes, a volume of 1000).
\<close>

definition table_of :: "real list \<Rightarrow> dataframe" where
  "table_of cs =
     \<lparr>index = map int [0..<length cs],
      columns = [(''Open'', map Fin cs), (''High'', map Fin cs), (''Low'', map Fin cs),
                 (''Close'', map Fin cs), (''Volume'', map (\<lambda>c. Fin 1000) cs)]\<rparr>"

section \<open>Lengths and cells of the derived series\<close>

lemma get_set_col_same: "get_col (set_col df name s) name = Inr s"
  by (simp add: get_col_def set_col_def update_conv')

lemma length_shift: "length (shift xs) = length xs"
  by (simp add: shift_def)

lemma length_ffill_from: "length (ffill_from p xs) = length xs"
  by (induction xs arbitrary: p) auto

lemma length_pct_change: "length (pct_change xs) = length xs"
  by (simp add: pct_change_def Let_def ffill_def length_ffill_from length_shift)

lemma length_accum_prod: "length (accum_prod a xs) = length xs"
  by (induction xs arbitrary: a) auto

lemma length_np_cumprod: "length (np_cumprod xs) = length xs"
  by (cases xs) (auto simp: length_accum_prod)

lemma length_cumprod: "length (cumprod xs) = length xs"
  by (simp add: cumprod_def length_np_cumprod)

lemma length_rolling: "length (rolling w stat xs) = length xs"
  by (simp add: rolling_def)

lemma ffill_from_Fin: "ffill_from p (map Fin cs) = map Fin cs"
  by (induction cs arbitrary: p) auto

lemma ffill_Fin: "ffill (map Fin cs) = map Fin cs"
  by (simp add: ffill_def ffill_from_Fin)

lemma shift_nth_0: "xs \<noteq> [] \<Longrightarrow> shift xs ! 0 = NaN"
  by (cases xs) (auto simp: shift_def)

lemma shift_nth_Suc: "Suc i < length xs \<Longrightarrow> shift xs ! Suc i = xs ! i"
  by (simp add: shift_def)

lemma pct_change_Fin_0: "cs \<noteq> [] \<Longrightarrow> pct_change (map Fin cs) ! 0 = NaN"
  by (simp add: pct_change_def Let_def ffill_Fin length_shift shift_nth_0 f64_sub_def)

lemma pct_change_Fin_Suc:
  "Suc i < length cs \<Longrightarrow>
   pct_change (map Fin cs) ! Suc i = f64_sub (f64_div (Fin (cs ! Suc i)) (Fin (cs ! i))) (Fin 1)"
  by (simp add: pct_change_def Let_def ffill_Fin length_shift shift_nth_Suc del: f64_div.simps)

lemma pct_change_Fin_Suc_nz:
  "Suc i < length cs \<Longrightarrow> cs ! i \<noteq> 0 \<Longrightarrow>
   pct_change (map Fin cs) ! Suc i = Fin (cs ! Suc i / cs ! i - 1)"
  by (simp add: pct_change_Fin_Suc f64_sub_def)

lemma f64_sum_foldl: "foldl f64_add (Fin a) (map Fin ys) = Fin (a + sum_list ys)"
  by (induction ys arbitrary: a) (auto simp: add.assoc)

lemma f64_sum_Fin: "f64_sum (map Fin ys) = Fin (sum_list ys)"
  by (simp add: f64_sum_def f64_sum_foldl)

lemma dropna_Fin: "dropna (map Fin ys) = map Fin ys"
  by (induction ys) (auto simp: dropna_def)

lemma inf_to_nan_Fin: "map inf_to_nan (map Fin ys) = map Fin ys"
  by (simp add: inf_to_nan_def)

lemma rolling_nth:
  "i < length xs \<Longrightarrow>
   rolling w stat xs ! i =
     (if w \<le> length (dropna (map inf_to_nan (window_at w xs i)))
      then stat (dropna (map inf_to_nan (window_at w xs i))) else NaN)"
  unfolding rolling_def Let_def by (simp del: upt_Suc)

lemma series_mean_Fin:
  "ys \<noteq> [] \<Longrightarrow> series_mean (map Fin ys) = Fin (sum_list ys / real (length ys))"
  by (simp add: series_mean_def dropna_Fin f64_sum_Fin)

lemma window_at_Fin:
  "window_at w (map Fin cs) i = map Fin (drop (i + 1 - w) (take (i + 1) cs))"
  by (simp add: window_at_def take_map drop_map)

lemma length_window: "i < length cs \<Longrightarrow> length (drop (i + 1 - w) (take (i + 1) cs)) = min (i + 1) w"
  by auto

lemma rolling_mean_Fin_nth:
  assumes "i < length cs" "0 < w"
  shows "rolling_mean w (map Fin cs) ! i =
    (if w \<le> i + 1 then Fin (sum_list (take w (drop (i + 1 - w) cs)) / real w) else NaN)"
proof -
  let ?win = "drop (i + 1 - w) (take (i + 1) cs)"
  have len: "length ?win = min (i + 1) w" using assms by auto
  have r: "rolling_mean w (map Fin cs) ! i =
      (if w \<le> length ?win then series_mean (map Fin ?win) else NaN)"
    using assms unfolding rolling_mean_def
    by (simp only: rolling_nth length_map window_at_Fin inf_to_nan_Fin dropna_Fin)
  show ?thesis
  proof (cases "w \<le> i + 1")
    case True
    then have "?win = take w (drop (i + 1 - w) cs)"
      by (simp add: drop_take)
    moreover have "?win \<noteq> []" using len True assms by auto
    ultimately show ?thesis using r len True assms
      by (simp add: series_mean_Fin)
  next
    case False
    then show ?thesis using r len by simp
  qed
qed

section \<open>Columns of the table after calculate\_metrics\<close>

lemma get_set_col_other: "m \<noteq> n \<Longrightarrow> get_col (set_col df n s) m = get_col df m"
  by (simp add: get_col_def set_col_def update_conv')

lemma index_set_col: "index (set_col df n s) = index df"
  by (simp add: set_col_def)

lemma list_all_update:
  "list_all P al \<Longrightarrow> P (k, v) \<Longrightarrow> list_all P (AList.update k v al)"
  by (induction al) auto

lemma aligned_set_col:
  "aligned df \<Longrightarrow> length s = length (index df) \<Longrightarrow> aligned (set_col df n s)"
  by (simp add: aligned_def set_col_def list_all_update)


lemma aligned_get_col: "aligned df \<Longrightarrow> get_col df n = Inr s \<Longrightarrow> length s = length (index df)"
  by (auto simp: aligned_def get_col_def list_all_iff split: option.splits dest!: map_of_SomeD)

lemma df_empty_iff: "get_col df n = Inr s \<Longrightarrow> df_empty df \<longleftrightarrow> index df = []"
  by (auto simp: df_empty_def get_col_def)

lemma calculate_metrics_value:
  assumes "index df \<noteq> []" "get_col df ''Close'' = Inr close"
  shows "calculate_metrics df = Inr (Some
    (set_col (set_col (set_col (set_col (set_col (set_col df
       ''Daily_Return'' (pct_change close))
       ''Cumulative_Return'' (sub_scalar (cumprod (radd 1 (pct_change close))) 1))
       ''MA_20'' (rolling_mean 20 close))
       ''MA_50'' (rolling_mean 50 close))
       ''MA_200'' (rolling_mean 200 close))
       ''Volatility'' (mul_scalar (rolling_std 20 (pct_change close)) (sqrt 252))))"
  using assms by (simp add: calculate_metrics_def df_empty_iff Let_def)

lemma cm_index:
  "calculate_metrics df = Inr (Some df') \<Longrightarrow> index df' = index df"
  by (auto simp: calculate_metrics_def Let_def index_set_col split: if_splits sum.splits)

lemma cm_other:
  "calculate_metrics df = Inr (Some df') \<Longrightarrow> name \<notin> set derived_names \<Longrightarrow>
   get_col df' name = get_col df name"
  by (auto simp: calculate_metrics_def Let_def get_set_col_other derived_names_def
      split: if_splits sum.splits)

lemma cm_cols:
  assumes "calculate_metrics df = Inr (Some df')" "get_col df ''Close'' = Inr close"
  shows "get_col df' ''Daily_Return'' = Inr (pct_change close)"
    and "get_col df' ''Cumulative_Return'' = Inr (sub_scalar (cumprod (radd 1 (pct_change close))) 1)"
    and "get_col df' ''MA_20'' = Inr (rolling_mean 20 close)"
    and "get_col df' ''MA_50'' = Inr (rolling_mean 50 close)"
    and "get_col df' ''MA_200'' = Inr (rolling_mean 200 close)"
    and "get_col df' ''Volatility'' = Inr (mul_scalar (rolling_std 20 (pct_change close)) (sqrt 252))"
  using assms
  by (auto simp: calculate_metrics_def Let_def get_set_col_other get_set_col_same
      split: if_splits sum.splits)


lemma cm_aligned:
  assumes "calculate_metrics df = Inr (Some df')" "aligned df"
  shows "aligned df'"
proof -
  from assms(1) obtain close where c: "get_col df ''Close'' = Inr close" and ne: "index df \<noteq> []"
    by (auto simp: calculate_metrics_def df_empty_def split: if_splits sum.splits)
  have len: "length close = length (index df)"
    using aligned_get_col[OF assms(2) c] .
  have "df' = set_col (set_col (set_col (set_col (set_col (set_col df
       ''Daily_Return'' (pct_change close))
       ''Cumulative_Return'' (sub_scalar (cumprod (radd 1 (pct_change close))) 1))
       ''MA_20'' (rolling_mean 20 close))
       ''MA_50'' (rolling_mean 50 close))
       ''MA_200'' (rolling_mean 200 close))
       ''Volatility'' (mul_scalar (rolling_std 20 (pct_change close)) (sqrt 252))"
    using calculate_metrics_value[OF ne c] assms(1) by simp
  then show ?thesis
    using assms(2) len
    by (simp add: aligned_set_col index_set_col length_pct_change length_cumprod
        length_rolling sub_scalar_def radd_def mul_scalar_def rolling_mean_def rolling_std_def)
qed

lemma bar_table_table_of: "bar_table (table_of cs) cs"
  by (simp add: bar_table_def table_of_def aligned_def get_col_def)

lemma index_table_of: "index (table_of cs) = map int [0..<length cs]"
  by (simp add: table_of_def)

lemma bar_table_nonempty: "bar_table df cs \<Longrightarrow> cs \<noteq> [] \<Longrightarrow> index df \<noteq> []"
  by (auto simp: bar_table_def dest: aligned_get_col)

lemma bar_table_length: "bar_table df cs \<Longrightarrow> length (index df) = length cs"
  by (auto simp: bar_table_def dest: aligned_get_col)

lemma has_col_iff: "has_col df n \<longleftrightarrow> (\<exists>s. get_col df n = Inr s)"
  by (auto simp: has_col_def get_col_def split: option.splits)

lemma map_nth_upt_window:
  "b \<le> length xs \<Longrightarrow> map (\<lambda>j. xs ! j) [a..<b] = take (b - a) (drop a xs)"
proof (rule nth_equalityI)
  assume b: "b \<le> length xs"
  then show "length (map (\<lambda>j. xs ! j) [a..<b]) = length (take (b - a) (drop a xs))"
    by simp
  fix i
  assume "i < length (map (\<lambda>j. xs ! j) [a..<b])"
  then have i: "i < b - a" by simp
  with b show "map (\<lambda>j. xs ! j) [a..<b] ! i = take (b - a) (drop a xs) ! i"
    by (simp add: nth_map_upt)
qed

lemma closes_window_take:
  assumes "i < length cs" and "k \<le> i + 1"
  shows "closes_window cs k i = take k (drop (i + 1 - k) cs)"
proof -
  have "i + 1 \<le> length cs" using assms(1) by simp
  then have "closes_window cs k i = take (i + 1 - (i + 1 - k)) (drop (i + 1 - k) cs)"
    unfolding closes_window_def by (rule map_nth_upt_window)
  moreover have "i + 1 - (i + 1 - k) = k" using assms(2) by arith
  ultimately show ?thesis by simp
qed

lemma length_closes_window: "k \<le> i + 1 \<Longrightarrow> length (closes_window cs k i) = k"
proof -
  assume "k \<le> i + 1"
  then have "i + 1 - (i + 1 - k) = k" by arith
  then show ?thesis unfolding closes_window_def length_map length_upt .
qed

lemma rolling_mean_closes:
  assumes "i < length cs" and "0 < k"
  shows "rolling_mean k (map Fin cs) ! i =
    (if k \<le> i + 1 then Fin (mean (closes_window cs k i)) else NaN)"
proof (cases "k \<le> i + 1")
  case True
  have "mean (closes_window cs k i) = sum_list (take k (drop (i + 1 - k) cs)) / real k"
    unfolding mean_def length_closes_window[OF True]
    by (simp only: closes_window_take[OF assms(1) True])
  with True show ?thesis
    by (simp only: rolling_mean_Fin_nth[OF assms] if_True)
next
  case False
  then show ?thesis by (simp only: rolling_mean_Fin_nth[OF assms] if_False)
qed

lemma length_rolling_mean: "length (rolling_mean k xs) = length xs"
  by (simp add: rolling_mean_def length_rolling)

lemma pct_change_Fin_list:
  assumes "cs \<noteq> []" and "\<forall>c \<in> set cs. c \<noteq> 0"
  shows "pct_change (map Fin cs) =
         NaN # map (\<lambda>j. Fin (cs ! Suc j / cs ! j - 1)) [0..<length cs - 1]"
proof (rule nth_equalityI)
  show "length (pct_change (map Fin cs)) =
        length (NaN # map (\<lambda>j. Fin (cs ! Suc j / cs ! j - 1)) [0..<length cs - 1])"
    using assms(1) by (simp add: length_pct_change)
next
  fix i
  assume "i < length (pct_change (map Fin cs))"
  then have i: "i < length cs" by (simp add: length_pct_change)
  show "pct_change (map Fin cs) ! i =
        (NaN # map (\<lambda>j. Fin (cs ! Suc j / cs ! j - 1)) [0..<length cs - 1]) ! i"
  proof (cases i)
    case 0
    then show ?thesis using assms(1) by (simp add: pct_change_Fin_0)
  next
    case (Suc j)
    with i have j: "Suc j < length cs" by simp
    then have "cs ! j \<in> set cs" by simp
    with assms(2) have "cs ! j \<noteq> 0" by blast
    with j Suc show ?thesis by (simp add: pct_change_Fin_Suc_nz)
  qed
qed



lemma series_var_Fin:
  assumes "2 \<le> length ys"
  shows "series_var (map Fin ys) =
         Fin (sum_list (map (\<lambda>y. (y - mean ys)\<^sup>2) ys) / (real (length ys) - 1))"
proof -
  have n0: "real (length ys) \<noteq> 0" and n1: "real (length ys - 1) \<noteq> 0"
    and n2: "\<not> length ys \<le> 1" and n3: "real (length ys - 1) = real (length ys) - 1"
    using assms by auto
  have avg: "f64_div (f64_sum (map Fin ys)) (Fin (real (length ys))) = Fin (mean ys)"
    using n0 by (simp add: f64_sum_Fin mean_def)
  have sq: "map (\<lambda>x. f64_mul (f64_sub (Fin (mean ys)) x) (f64_sub (Fin (mean ys)) x)) (map Fin ys) =
            map Fin (map (\<lambda>y. (y - mean ys)\<^sup>2) ys)"
    by (simp add: f64_sub_def power2_eq_square algebra_simps)
  have "series_var (map Fin ys) =
        f64_div (f64_sum (map (\<lambda>x. f64_mul (f64_sub (Fin (mean ys)) x) (f64_sub (Fin (mean ys)) x))
                   (map Fin ys))) (Fin (real (length ys - 1)))"
    unfolding series_var_def Let_def dropna_Fin length_map avg using n2 by (simp only: if_False)
  also have "\<dots> = f64_div (Fin (sum_list (map (\<lambda>y. (y - mean ys)\<^sup>2) ys))) (Fin (real (length ys) - 1))"
    unfolding sq f64_sum_Fin n3 ..
  also have "\<dots> = Fin (sum_list (map (\<lambda>y. (y - mean ys)\<^sup>2) ys) / (real (length ys) - 1))"
    using n1 n3 by simp
  finally show ?thesis .
qed

lemma series_std_Fin:
  assumes "2 \<le> length ys"
  shows "series_std (map Fin ys) = Fin (sample_std ys)"
proof -
  have "0 \<le> sum_list (map (\<lambda>y. (y - mean ys)\<^sup>2) ys)"
    by (rule sum_list_nonneg) auto
  moreover have "0 < real (length ys) - 1" using assms by simp
  ultimately have "0 \<le> sum_list (map (\<lambda>y. (y - mean ys)\<^sup>2) ys) / (real (length ys) - 1)"
    by simp
  then show ?thesis
    unfolding series_std_def series_var_Fin[OF assms] sample_std_def by simp
qed

lemma length_dropna_le: "length (dropna xs) \<le> length xs"
  by (simp add: dropna_def)

lemma rolling_after_nan:
  assumes "i \<le> length rs" and "0 < w"
  shows "rolling w stat (NaN # map Fin rs) ! i =
         (if w \<le> i then stat (map Fin (take w (drop (i - w) rs))) else NaN)"
proof -
  have i: "i < length (NaN # map Fin rs)" using assms(1) by simp
  have t: "take (i + 1) (NaN # map Fin rs) = NaN # map Fin (take i rs)"
    by (simp add: take_map)
  show ?thesis
  proof (cases "w \<le> i")
    case True
    then have s: "i + 1 - w = Suc (i - w)" by simp
    have win: "window_at w (NaN # map Fin rs) i = map Fin (take w (drop (i - w) rs))"
    proof -
      have "drop (i - w) (take i rs) = take w (drop (i - w) rs)"
        using True by (simp add: drop_take)
      then show ?thesis unfolding window_at_def t s by (simp add: drop_map)
    qed
    have len: "length (take w (drop (i - w) rs)) = w"
      using True assms(1) by simp
    show ?thesis
      unfolding rolling_nth[OF i] win inf_to_nan_Fin dropna_Fin
      using True len by simp
  next
    case False
    then have s: "i + 1 - w = 0" by simp
    have win: "window_at w (NaN # map Fin rs) i = NaN # map Fin (take i rs)"
      unfolding window_at_def t s by simp
    have obs: "dropna (map inf_to_nan (NaN # map Fin (take i rs))) = map Fin (take i rs)"
      using dropna_Fin[of "take i rs"] inf_to_nan_Fin[of "take i rs"]
      by (simp add: dropna_def inf_to_nan_def)
    have "length (map Fin (take i rs)) < w" using False assms(1) by simp
    then show ?thesis
      unfolding rolling_nth[OF i] win obs using False by simp
  qed
qed

lemma returns_window_take:
  assumes "20 \<le> i" and "i < length cs"
  shows "take 20 (drop (i - 20) (map (\<lambda>j. cs ! Suc j / cs ! j - 1) [0..<length cs - 1])) =
         returns_window cs (i - 19) i"
proof (rule nth_equalityI)
  show "length (take 20 (drop (i - 20) (map (\<lambda>j. cs ! Suc j / cs ! j - 1) [0..<length cs - 1]))) =
        length (returns_window cs (i - 19) i)"
    using assms by (simp add: returns_window_def)
next
  fix k
  assume "k < length (take 20 (drop (i - 20) (map (\<lambda>j. cs ! Suc j / cs ! j - 1) [0..<length cs - 1])))"
  then have k: "k < 20" by simp
  have a: "i - 20 + k < length cs - 1" using assms k by simp
  have b: "k < Suc i - (i - 19)" using assms k by simp
  have c: "i - 19 + k = Suc (i - 20 + k)" using assms by simp
  show "take 20 (drop (i - 20) (map (\<lambda>j. cs ! Suc j / cs ! j - 1) [0..<length cs - 1])) ! k =
        returns_window cs (i - 19) i ! k"
    using k a b c by (simp add: returns_window_def nth_map_upt del: upt_Suc)
qed

lemma volatility_Fin_nth:
  assumes "cs \<noteq> []" and "\<forall>c \<in> set cs. c \<noteq> 0" and "i < length cs"
  shows "mul_scalar (rolling_std 20 (pct_change (map Fin cs))) (sqrt 252) ! i =
         (if 20 \<le> i then Fin (sample_std (returns_window cs (i - 19) i) * sqrt 252) else NaN)"
proof -
  let ?rs = "map (\<lambda>j. cs ! Suc j / cs ! j - 1) [0..<length cs - 1]"
  have dr: "pct_change (map Fin cs) = NaN # map Fin ?rs"
    unfolding pct_change_Fin_list[OF assms(1,2)] by (simp add: comp_def)
  have il: "i \<le> length ?rs" using assms(3) by simp
  have n: "mul_scalar (rolling_std 20 (pct_change (map Fin cs))) (sqrt 252) ! i =
           f64_mul (rolling 20 series_std (NaN # map Fin ?rs) ! i) (Fin (sqrt 252))"
    unfolding mul_scalar_def rolling_std_def dr using assms(3)
    by (simp add: length_rolling)
  have r: "rolling 20 series_std (NaN # map Fin ?rs) ! i =
           (if 20 \<le> i then series_std (map Fin (take 20 (drop (i - 20) ?rs))) else NaN)"
    by (rule rolling_after_nan[OF il]) simp
  show ?thesis
  proof (cases "20 \<le> i")
    case True
    have w: "take 20 (drop (i - 20) ?rs) = returns_window cs (i - 19) i"
      by (rule returns_window_take[OF True assms(3)])
    have l: "2 \<le> length (returns_window cs (i - 19) i)"
      using True by (simp add: returns_window_def)
    show ?thesis unfolding n r w using True by (simp add: series_std_Fin[OF l])
  next
    case False
    then show ?thesis unfolding n r by simp
  qed
qed

lemma rolling_non_finite:
  assumes "i < length xs" and "j \<le> i" and "i + 1 - w \<le> j" and "\<not> isfinite (xs ! j)"
  shows "rolling w stat xs ! i = NaN"
proof -
  let ?win = "window_at w xs i"
  have len: "length ?win \<le> w" using assms(1) by (auto simp: window_at_def)
  have mem: "xs ! j \<in> set ?win"
  proof -
    have "j - (i + 1 - w) < length ?win" using assms(1,2,3) by (auto simp: window_at_def)
    moreover have "?win ! (j - (i + 1 - w)) = xs ! j"
      using assms(1,2,3) by (simp add: window_at_def)
    ultimately show ?thesis by (metis nth_mem)
  qed
  have "isna (inf_to_nan (xs ! j))" using assms(4) by (simp add: inf_to_nan_def)
  with mem have "length (filter (\<lambda>x. \<not> isna (inf_to_nan x)) ?win) < length ?win"
    by (intro length_filter_less[of "xs ! j"]) auto
  then have "length (dropna (map inf_to_nan ?win)) < w"
    using len by (simp add: dropna_def filter_map comp_def)
  then show ?thesis unfolding rolling_nth[OF assms(1)] by simp
qed

lemma mean_zeros: "mean (replicate n 0) = 0"
  by (simp add: mean_def sum_list_replicate)

lemma sample_std_zeros: "sample_std (replicate n 0) = 0"
  by (simp add: sample_std_def mean_zeros sum_list_replicate map_replicate)

lemma returns_window_const:
  assumes "c \<noteq> 0" and "hi < n" and "0 < lo"
  shows "returns_window (replicate n c) lo hi = replicate (hi + 1 - lo) 0"
proof -
  have "map (\<lambda>j. replicate n c ! j / replicate n c ! (j - 1) - 1) [lo..<hi + 1] =
        map (\<lambda>j. 0) [lo..<hi + 1]"
    using assms by (intro map_cong) (auto simp del: upt_Suc)
  also have "\<dots> = replicate (length [lo..<hi + 1]) 0" by (rule map_replicate_const)
  also have "length [lo..<hi + 1] = hi + 1 - lo" by (rule length_upt)
  finally show ?thesis unfolding returns_window_def .
qed

lemma pct_change_const:
  assumes "c \<noteq> 0" and "0 < n"
  shows "pct_change (map Fin (replicate n c)) = NaN # replicate (n - 1) (Fin 0)"
proof -
  have ne: "replicate n c \<noteq> []" using assms(2) by simp
  have nz: "\<forall>x \<in> set (replicate n c). x \<noteq> 0" using assms(1) by simp
  have "map (\<lambda>j. Fin (replicate n c ! Suc j / replicate n c ! j - 1)) [0..<n - 1] =
        map (\<lambda>j. Fin 0) [0..<n - 1]"
    using assms by (intro map_cong) auto
  then show ?thesis
    unfolding pct_change_Fin_list[OF ne nz] by (simp add: map_replicate_const)
qed

lemma pct_change_zeros: "pct_change (map Fin (replicate n 0)) = replicate n NaN"
proof (rule nth_equalityI)
  show "length (pct_change (map Fin (replicate n 0))) = length (replicate n NaN)"
    by (simp add: length_pct_change)
next
  fix i
  assume "i < length (pct_change (map Fin (replicate n 0)))"
  then have i: "i < n" by (simp add: length_pct_change)
  show "pct_change (map Fin (replicate n 0)) ! i = replicate n NaN ! i"
  proof (cases i)
    case 0
    with i show ?thesis using pct_change_Fin_0[of "replicate n 0"] by simp
  next
    case (Suc j)
    with i show ?thesis
      using pct_change_Fin_Suc[of j "replicate n 0"] by (simp add: f64_sub_def)
  qed
qed

lemma series_mean_after_nan:
  "rs \<noteq> [] \<Longrightarrow> series_mean (NaN # map Fin rs) = Fin (mean rs)"
  using series_mean_Fin[of rs] dropna_Fin[of rs]
  by (simp add: series_mean_def dropna_def mean_def)

lemma series_std_after_nan:
  "2 \<le> length rs \<Longrightarrow> series_std (NaN # map Fin rs) = Fin (sample_std rs)"
  using series_std_Fin[of rs] dropna_Fin[of rs]
  by (simp add: series_std_def series_var_def dropna_def)

lemma series_mean_all_nan: "series_mean (replicate n NaN) = NaN"
  by (simp add: series_mean_def dropna_def)

lemma sharpe_const:
  assumes "c \<noteq> 0" and "3 \<le> n"
  shows "series_mean (pct_change (map Fin (replicate n c))) = Fin 0"
    and "series_std (pct_change (map Fin (replicate n c))) = Fin 0"
    and "sharpe_approx (pct_change (map Fin (replicate n c))) = NaN"
proof -
  have n: "0 < n" using assms(2) by simp
  have dr: "pct_change (map Fin (replicate n c)) = NaN # map Fin (replicate (n - 1) 0)"
    unfolding pct_change_const[OF assms(1) n] by simp
  have ne: "replicate (n - 1) (0::real) \<noteq> []" using assms(2) by simp
  have l: "2 \<le> length (replicate (n - 1) (0::real))" using assms(2) by simp
  show m: "series_mean (pct_change (map Fin (replicate n c))) = Fin 0"
    unfolding dr series_mean_after_nan[OF ne] by (simp add: mean_zeros)
  show s: "series_std (pct_change (map Fin (replicate n c))) = Fin 0"
    unfolding dr series_std_after_nan[OF l] by (simp add: sample_std_zeros)
  show "sharpe_approx (pct_change (map Fin (replicate n c))) = NaN"
    unfolding sharpe_approx_def m s by simp
qed

lemma sharpe_zeros: "sharpe_approx (pct_change (map Fin (replicate n 0))) = NaN"
  unfolding sharpe_approx_def pct_change_zeros series_mean_all_nan by simp

lemma volatility_const:
  assumes "c \<noteq> 0" and "i < n"
  shows "mul_scalar (rolling_std 20 (pct_change (map Fin (replicate n c)))) (sqrt 252) ! i =
         (if 20 \<le> i then Fin 0 else NaN)"
proof -
  have ne: "replicate n c \<noteq> []" using assms(2) by auto
  have nz: "\<forall>x \<in> set (replicate n c). x \<noteq> 0" using assms(1) by simp
  have i: "i < length (replicate n c)" using assms(2) by simp
  show ?thesis
  proof (cases "20 \<le> i")
    case True
    then have "returns_window (replicate n c) (i - 19) i = replicate (i + 1 - (i - 19)) 0"
      using assms by (intro returns_window_const) auto
    with True show ?thesis
      unfolding volatility_Fin_nth[OF ne nz i] by (simp add: sample_std_zeros)
  next
    case False
    then show ?thesis unfolding volatility_Fin_nth[OF ne nz i] by simp
  qed
qed

lemma volatility_zeros:
  assumes "i < n"
  shows "mul_scalar (rolling_std 20 (pct_change (map Fin (replicate n 0)))) (sqrt 252) ! i = NaN"
proof -
  have "rolling 20 series_std (replicate n NaN) ! i = NaN"
    using assms by (intro rolling_non_finite[where j = i]) auto
  then show ?thesis
    unfolding pct_change_zeros using assms
    by (simp add: mul_scalar_def rolling_std_def length_rolling)
qed

lemma iloc_first: "xs \<noteq> [] \<Longrightarrow> iloc xs 0 = Inr (hd xs)"
  by (cases xs) (simp_all add: iloc_def)

lemma iloc_last: "xs \<noteq> [] \<Longrightarrow> iloc xs (- 1) = Inr (last xs)"
proof -
  assume ne: "xs \<noteq> []"
  then have "nat (int (length xs) + - 1) = length xs - 1" by (cases xs) simp_all
  with ne show ?thesis by (simp add: iloc_def last_conv_nth Suc_le_eq)
qed

lemma iloc_prev: "2 \<le> length xs \<Longrightarrow> iloc xs (- 2) = Inr (xs ! (length xs - 2))"
proof -
  assume l: "2 \<le> length xs"
  then have "nat (int (length xs) + - 2) = length xs - 2" by simp
  with l show ?thesis by (simp add: iloc_def)
qed

lemma display_key_metrics_total_return:
  assumes "bar_table df cs" and "2 \<le> length cs" and "\<forall>c \<in> set cs. c \<noteq> 0"
    and "has_col df ''Volume''"
  shows "\<exists>km. display_key_metrics df stock_info = Inr km \<and>
           total_return km = Fin ((last cs - hd cs) / hd cs * 100)"
proof -
  have ne: "cs \<noteq> []" using assms(2) by auto
  have c: "get_col df ''Close'' = Inr (map Fin cs)" and al: "aligned df"
    using assms(1) by (simp_all add: bar_table_def)
  have l: "2 \<le> length (map Fin cs)" using assms(2) by simp
  have h: "hd cs \<noteq> 0" using assms(3) ne by simp
  obtain vol where v: "get_col df ''Volume'' = Inr vol"
    using assms(4) unfolding has_col_iff by blast
  have i1: "iloc (map Fin cs) (- 1) = Inr (Fin (last cs))"
    using ne by (simp add: iloc_last last_map)
  have i0: "iloc (map Fin cs) 0 = Inr (Fin (hd cs))"
    using ne by (simp add: iloc_first hd_map)
  have i2: "iloc (map Fin cs) (- 2) = Inr (map Fin cs ! (length (map Fin cs) - 2))"
    by (rule iloc_prev[OF l])
  have t: "f64_mul (f64_div (f64_sub (Fin (last cs)) (Fin (hd cs))) (Fin (hd cs))) (Fin 100) =
           Fin ((last cs - hd cs) / hd cs * 100)"
    using h by (simp add: f64_sub_def)
  show ?thesis
  proof (cases "has_col df ''Volatility''")
    case True
    then obtain s where s: "get_col df ''Volatility'' = Inr s" unfolding has_col_iff by blast
    from aligned_get_col[OF al s] bar_table_nonempty[OF assms(1) ne] have "s \<noteq> []" by auto
    then have il: "iloc s (- 1) = Inr (last s)" by (rule iloc_last)
    show ?thesis
      by (simp add: display_key_metrics_def then_do_def c v i1 i0 i2 True s il t
          del: f64_mul.simps f64_div.simps)
  next
    case False
    show ?thesis
      by (simp add: display_key_metrics_def then_do_def c v i1 i0 i2 False t
          del: f64_mul.simps f64_div.simps)
  qed
qed

lemma main_logic_blank:
  "main_logic yf True [] time_period show_returns = Inr [StWarning missing_msg]"
  by (simp add: main_logic_def)

lemma main_logic_raises:
  assumes "ticker_input \<noteq> []" and "yf (upper ticker_input) time_period = Inl e"
  shows "main_logic yf True ticker_input time_period show_returns =
         Inr [StError (unable_msg ticker_input), StInfo tip_msg]"
  using assms by (simp add: main_logic_def get_stock_data_def)

lemma main_logic_empty_history:
  assumes "ticker_input \<noteq> []" and "yf (upper ticker_input) time_period = Inr (hist, stock_info)"
    and "df_empty hist"
  shows "main_logic yf True ticker_input time_period show_returns =
         Inr [StError (unable_msg ticker_input), StInfo tip_msg]"
  using assms by (simp add: main_logic_def get_stock_data_def)

section \<open>The claims\<close>

text \<open>
  C6. Given a table with no rows, \<^verbatim>\<open>calculate_metrics\<close> returns None, the explicit
  "no data" result: it does not raise, it returns no table, and it writes nothing to the
  object it was given.
\<close>

theorem calculate_metrics_empty:
  "calculate_metrics (df\<lparr>index := []\<rparr>) = Inr None \<and>
   calculate_metrics_inplace (h(r := df\<lparr>index := []\<rparr>)) r = (Inr None, h(r := df\<lparr>index := []\<rparr>))"
  by (simp add: calculate_metrics_def calculate_metrics_inplace_def df_empty_def)

text \<open>
  C1. For a table with at least one row (whatever its dates, so in particular for strictly
  ascending ones), \<^verbatim>\<open>calculate_metrics\<close> returns a table with the same index: the same
  rows in the same order. Every column of the result has one cell per row, each of the six
  derived columns is present with exactly that many cells, and every other column is
  the column of the input, cell by cell.
\<close>

theorem calculate_metrics_rows:
  assumes "aligned df" and "get_col df ''Close'' = Inr close" and "index df \<noteq> []"
  shows "\<exists>df'. calculate_metrics df = Inr (Some df') \<and>
           index df' = index df \<and> aligned df' \<and>
           (\<forall>name. name \<in> set derived_names \<longrightarrow>
              (\<exists>s. get_col df' name = Inr s \<and> length s = length (index df))) \<and>
           (\<forall>name. name \<notin> set derived_names \<longrightarrow> get_col df' name = get_col df name)"
proof -
  obtain df' where r: "calculate_metrics df = Inr (Some df')"
    using calculate_metrics_value[OF assms(3) assms(2)] by blast
  have i: "index df' = index df" by (rule cm_index[OF r])
  have a: "aligned df'" by (rule cm_aligned[OF r assms(1)])
  have d: "\<exists>s. get_col df' name = Inr s \<and> length s = length (index df)"
    if "name \<in> set derived_names" for name
  proof -
    from that cm_cols[OF r assms(2)] obtain s where s: "get_col df' name = Inr s"
      unfolding derived_names_def by auto
    from aligned_get_col[OF a s] i s show ?thesis by simp
  qed
  have o: "get_col df' name = get_col df name" if "name \<notin> set derived_names" for name
    by (rule cm_other[OF r that])
  from r i a d o show ?thesis by blast
qed

theorem calculate_metrics_rows_witness:
  "aligned (table_of [10, 11, 12]) \<and>
   get_col (table_of [10, 11, 12]) ''Close'' = Inr [Fin 10, Fin 11, Fin 12] \<and>
   index (table_of [10, 11, 12]) = [0, 1, 2] \<and>
   (\<exists>df'. calculate_metrics (table_of [10, 11, 12]) = Inr (Some df') \<and>
      index df' = [0, 1, 2] \<and> aligned df' \<and>
      get_col df' ''Open'' = Inr [Fin 10, Fin 11, Fin 12])"
proof -
  let ?t = "table_of [10, 11, 12]"
  have a: "aligned ?t" and c: "get_col ?t ''Close'' = Inr [Fin 10, Fin 11, Fin 12]"
    and i: "index ?t = [0, 1, 2]" and o: "get_col ?t ''Open'' = Inr [Fin 10, Fin 11, Fin 12]"
    by (simp_all add: table_of_def aligned_def get_col_def upt_rec)
  have ne: "index ?t \<noteq> []" using i by simp
  have n: "''Open'' \<notin> set derived_names" by (simp add: derived_names_def)
  from calculate_metrics_rows[OF a c ne] n i o a c show ?thesis by metis
qed



text \<open>
  C2. For a bar sequence with at least two rows and positive closes, the Daily\_Return
  column has one cell per row, is NaN at index 0, and at every index \<open>i \<ge> 1\<close> holds
  \<open>close[i] / close[i-1] - 1\<close>.
\<close>

theorem daily_return_cells:
  assumes "bar_table df cs" and "2 \<le> length cs" and "\<forall>c \<in> set cs. 0 < c"
  shows "\<exists>df' dr. calculate_metrics df = Inr (Some df') \<and>
           get_col df' ''Daily_Return'' = Inr dr \<and> length dr = length cs \<and>
           dr ! 0 = NaN \<and>
           (\<forall>i. 1 \<le> i \<and> i < length cs \<longrightarrow> dr ! i = Fin (cs ! i / cs ! (i - 1) - 1))"
proof -
  have ne: "cs \<noteq> []" using assms(2) by auto
  have c: "get_col df ''Close'' = Inr (map Fin cs)" using assms(1) by (simp add: bar_table_def)
  obtain df' where r: "calculate_metrics df = Inr (Some df')"
    using calculate_metrics_value[OF bar_table_nonempty[OF assms(1) ne] c] by blast
  let ?dr = "pct_change (map Fin cs)"
  have 1: "get_col df' ''Daily_Return'' = Inr ?dr" by (rule cm_cols(1)[OF r c])
  have 2: "length ?dr = length cs" by (simp add: length_pct_change)
  have 3: "?dr ! 0 = NaN" by (rule pct_change_Fin_0[OF ne])
  have 4: "?dr ! i = Fin (cs ! i / cs ! (i - 1) - 1)" if "1 \<le> i \<and> i < length cs" for i
  proof -
    from that obtain j where j: "i = Suc j" by (cases i) auto
    with that have "Suc j < length cs" by simp
    moreover from this assms(3) have "cs ! j \<noteq> 0"
      by (metis Suc_lessD less_irrefl nth_mem)
    ultimately show ?thesis using j by (simp add: pct_change_Fin_Suc_nz)
  qed
  from r 1 2 3 4 show ?thesis by blast
qed

theorem daily_return_cells_witness:
  "bar_table (table_of [10, 11, 12]) [10, 11, 12] \<and> (2::nat) \<le> length [10, 11, 12 :: real] \<and>
   list_all (\<lambda>c. 0 < c) [10, 11, 12 :: real] \<and>
   (\<exists>df' dr. calculate_metrics (table_of [10, 11, 12]) = Inr (Some df') \<and>
      get_col df' ''Daily_Return'' = Inr dr \<and> length dr = 3 \<and>
      dr ! 0 = NaN \<and> dr ! 1 = Fin (1 / 10) \<and> dr ! 2 = Fin (1 / 11))"
proof -
  let ?cs = "[10, 11, 12 :: real]"
  have b: "bar_table (table_of ?cs) ?cs" by (rule bar_table_table_of)
  have l: "2 \<le> length ?cs" by simp
  have p: "\<forall>c \<in> set ?cs. 0 < c" by simp
  from daily_return_cells[OF b l p] obtain df' dr where
    d: "calculate_metrics (table_of ?cs) = Inr (Some df')"
       "get_col df' ''Daily_Return'' = Inr dr" "length dr = length ?cs" "dr ! 0 = NaN"
       "\<forall>i. 1 \<le> i \<and> i < length ?cs \<longrightarrow> dr ! i = Fin (?cs ! i / ?cs ! (i - 1) - 1)"
    by blast
  from d(5) have "dr ! 1 = Fin (?cs ! 1 / ?cs ! (1 - 1) - 1)" by simp
  then have e1: "dr ! 1 = Fin (1 / 10)" by simp
  from d(5) have "dr ! 2 = Fin (?cs ! 2 / ?cs ! (2 - 1) - 1)" by simp
  then have e2: "dr ! 2 = Fin (1 / 11)" by simp
  from b d e1 e2 show ?thesis by (intro conjI exI[of _ df'] exI[of _ dr]) auto
qed

text \<open>
  C4. For every non-empty bar sequence and each k in 20, 50, 200, the column MA\_k has a
  value at index i exactly when \<open>i - k + 1 \<ge> 0\<close>, and that value is the arithmetic mean
  of the k closes \<open>close[i-k+1 .. i]\<close>: a full window, never a partial one.
\<close>

theorem moving_average_cells:
  assumes "bar_table df cs" and "cs \<noteq> []"
    and "(k, name) \<in> {(20, ''MA_20''), (50, ''MA_50''), (200, ''MA_200'')}"
  shows "\<exists>df' ma. calculate_metrics df = Inr (Some df') \<and>
           get_col df' name = Inr ma \<and> length ma = length cs \<and>
           (\<forall>i. i < length cs \<longrightarrow>
              (isna (ma ! i) \<longleftrightarrow> i + 1 < k) \<and>
              (k \<le> i + 1 \<longrightarrow> ma ! i = Fin (mean (closes_window cs k i))))"
proof -
  have c: "get_col df ''Close'' = Inr (map Fin cs)" using assms(1) by (simp add: bar_table_def)
  obtain df' where r: "calculate_metrics df = Inr (Some df')"
    using calculate_metrics_value[OF bar_table_nonempty[OF assms(1) assms(2)] c] by blast
  let ?ma = "rolling_mean k (map Fin cs)"
  have k: "0 < k" using assms(3) by auto
  have 1: "get_col df' name = Inr ?ma"
    using assms(3) cm_cols(3,4,5)[OF r c] by auto
  have 2: "length ?ma = length cs" by (simp add: length_rolling_mean)
  have 3: "(isna (?ma ! i) \<longleftrightarrow> i + 1 < k) \<and>
           (k \<le> i + 1 \<longrightarrow> ?ma ! i = Fin (mean (closes_window cs k i)))"
    if "i < length cs" for i
    using rolling_mean_closes[OF that k] by auto
  from r 1 2 3 show ?thesis by blast
qed

theorem moving_average_cells_witness:
  "bar_table (table_of (map real [1..<22])) (map real [1..<22]) \<and>
   map real [1..<22] \<noteq> [] \<and>
   (\<exists>df' ma. calculate_metrics (table_of (map real [1..<22])) = Inr (Some df') \<and>
      get_col df' ''MA_20'' = Inr ma \<and> length ma = 21 \<and>
      isna (ma ! 18) \<and> ma ! 19 = Fin (21 / 2) \<and> ma ! 20 = Fin (23 / 2))"
proof -
  let ?cs = "map real [1..<22]"
  have b: "bar_table (table_of ?cs) ?cs" by (rule bar_table_table_of)
  have ne: "?cs \<noteq> []" by simp
  have m: "(20, ''MA_20'') \<in> {(20::nat, ''MA_20''), (50, ''MA_50''), (200, ''MA_200'')}"
    by simp
  from moving_average_cells[OF b ne m] obtain df' ma where
    d: "calculate_metrics (table_of ?cs) = Inr (Some df')"
       "get_col df' ''MA_20'' = Inr ma" "length ma = length ?cs"
    and a: "\<forall>i. i < length ?cs \<longrightarrow>
              (isna (ma ! i) \<longleftrightarrow> i + 1 < 20) \<and>
              (20 \<le> i + 1 \<longrightarrow> ma ! i = Fin (mean (closes_window ?cs 20 i)))"
    by blast
  have l: "length ?cs = 21" by simp
  from a l have 18: "isna (ma ! 18)" by simp
  have w19: "mean (closes_window ?cs 20 19) = 21 / 2"
    by (simp add: mean_def closes_window_def upt_rec)
  have w20: "mean (closes_window ?cs 20 20) = 23 / 2"
    by (simp add: mean_def closes_window_def upt_rec)
  from a l have "ma ! 19 = Fin (mean (closes_window ?cs 20 19))" by simp
  with w19 have 19: "ma ! 19 = Fin (21 / 2)" by simp
  from a l have "ma ! 20 = Fin (mean (closes_window ?cs 20 20))" by simp
  with w20 have 20: "ma ! 20 = Fin (23 / 2)" by simp
  from b ne d l 18 19 20 show ?thesis
    by (intro conjI exI[of _ df'] exI[of _ ma]) simp_all
qed






text \<open>
  C7. For a 30-row bar sequence whose closes all equal \<open>c\<close>: every Daily\_Return cell
  is missing or 0, every Volatility cell is missing or 0, and the Sharpe ratio of the
  summary, mean over standard deviation times \<open>sqrt 252\<close>, is NaN. When \<open>c\<close> is not
  zero the returns from index 1 on and the volatilities from index 20 on are 0, and the
  mean and the standard deviation of the returns are both 0, so the ratio is 0/0.
\<close>

theorem constant_price_series:
  assumes "bar_table df (replicate 30 c)"
  shows "\<exists>df' dr vol s. calculate_metrics df = Inr (Some df') \<and>
           get_col df' ''Daily_Return'' = Inr dr \<and> length dr = 30 \<and>
           get_col df' ''Volatility'' = Inr vol \<and> length vol = 30 \<and>
           (\<forall>i. i < 30 \<longrightarrow> dr ! i = NaN \<or> dr ! i = Fin 0) \<and>
           (\<forall>i. i < 30 \<longrightarrow> vol ! i = NaN \<or> vol ! i = Fin 0) \<and>
           summary_stats df' = Inr s \<and> sharpe_ratio s = NaN \<and>
           sharpe_ratio s = f64_mul (f64_div (series_mean dr) (series_std dr)) (Fin (sqrt 252)) \<and>
           (c \<noteq> 0 \<longrightarrow>
              (\<forall>i. 1 \<le> i \<and> i < 30 \<longrightarrow> dr ! i = Fin 0) \<and>
              (\<forall>i. 20 \<le> i \<and> i < 30 \<longrightarrow> vol ! i = Fin 0) \<and>
              series_mean dr = Fin 0 \<and> series_std dr = Fin 0)"
proof -
  let ?cs = "replicate 30 c"
  let ?dr = "pct_change (map Fin ?cs)"
  let ?vol = "mul_scalar (rolling_std 20 ?dr) (sqrt 252)"
  have cl: "get_col df ''Close'' = Inr (map Fin ?cs)" using assms by (simp add: bar_table_def)
  have ne: "index df \<noteq> []" by (rule bar_table_nonempty[OF assms]) simp
  obtain df' where r: "calculate_metrics df = Inr (Some df')"
    using calculate_metrics_value[OF ne cl] by blast
  have 1: "get_col df' ''Daily_Return'' = Inr ?dr" by (rule cm_cols(1)[OF r cl])
  have 2: "get_col df' ''Volatility'' = Inr ?vol" by (rule cm_cols(6)[OF r cl])
  have 3: "length ?dr = 30" by (simp add: length_pct_change)
  have 4: "length ?vol = 30"
    by (simp add: mul_scalar_def rolling_std_def length_rolling length_pct_change)
  define s where "s = \<lparr>mean_return = f64_mul (series_mean ?dr) (Fin 100),
            std_deviation = f64_mul (series_std ?dr) (Fin 100),
            min_return = f64_mul (series_min ?dr) (Fin 100),
            max_return = f64_mul (series_max ?dr) (Fin 100),
            sharpe_ratio = sharpe_approx ?dr\<rparr>"
  have 5: "summary_stats df' = Inr s"
    by (simp add: summary_stats_def 1 then_do_def s_def)
  have 6: "sharpe_ratio s = f64_mul (f64_div (series_mean ?dr) (series_std ?dr)) (Fin (sqrt 252))"
    by (simp add: s_def sharpe_approx_def)
  have 7: "sharpe_ratio s = NaN"
    using sharpe_const(3)[of c 30] sharpe_zeros[of 30] by (cases "c = 0") (simp_all add: s_def)
  have 8: "?dr ! i = NaN \<or> ?dr ! i = Fin 0" if "i < 30" for i
  proof (cases "c = 0")
    case True
    then show ?thesis using that pct_change_zeros[of 30] by simp
  next
    case False
    then show ?thesis using that pct_change_const[OF False, of 30] by (cases i) simp_all
  qed
  have 9: "?vol ! i = NaN \<or> ?vol ! i = Fin 0" if "i < 30" for i
  proof (cases "c = 0")
    case True
    then show ?thesis using volatility_zeros[OF that] by simp
  next
    case False
    then show ?thesis using volatility_const[OF False that] by simp
  qed
  have 10: "(\<forall>i. 1 \<le> i \<and> i < 30 \<longrightarrow> ?dr ! i = Fin 0) \<and>
            (\<forall>i. 20 \<le> i \<and> i < 30 \<longrightarrow> ?vol ! i = Fin 0) \<and>
            series_mean ?dr = Fin 0 \<and> series_std ?dr = Fin 0" if nz: "c \<noteq> 0"
  proof (intro conjI allI impI)
    fix i :: nat assume "1 \<le> i \<and> i < 30"
    then show "?dr ! i = Fin 0" using pct_change_const[OF nz, of 30] by (cases i) simp_all
  next
    fix i :: nat assume "20 \<le> i \<and> i < 30"
    then show "?vol ! i = Fin 0" using volatility_const[OF nz, of i 30] by simp
  next
    show "series_mean ?dr = Fin 0" by (rule sharpe_const(1)[OF nz]) simp
    show "series_std ?dr = Fin 0" by (rule sharpe_const(2)[OF nz]) simp
  qed
  from r 1 2 3 4 5 6 7 8 9 10 show ?thesis by blast
qed

theorem constant_price_series_witness:
  "bar_table (table_of (replicate 30 5)) (replicate 30 5) \<and>
   (\<exists>df' dr vol s. calculate_metrics (table_of (replicate 30 5)) = Inr (Some df') \<and>
      get_col df' ''Daily_Return'' = Inr dr \<and> dr ! 0 = NaN \<and> dr ! 1 = Fin 0 \<and>
      dr ! 29 = Fin 0 \<and>
      get_col df' ''Volatility'' = Inr vol \<and> vol ! 20 = Fin 0 \<and> vol ! 29 = Fin 0 \<and>
      series_std dr = Fin 0 \<and> summary_stats df' = Inr s \<and> sharpe_ratio s = NaN)"
proof -
  let ?cs = "replicate 30 (5::real)"
  have b: "bar_table (table_of ?cs) ?cs" by (rule bar_table_table_of)
  from constant_price_series[OF b] obtain df' dr vol s where
    d: "calculate_metrics (table_of ?cs) = Inr (Some df')"
       "get_col df' ''Daily_Return'' = Inr dr" "get_col df' ''Volatility'' = Inr vol"
       "summary_stats df' = Inr s" "sharpe_ratio s = NaN"
    and a: "(5::real) \<noteq> 0 \<longrightarrow>
              (\<forall>i. 1 \<le> i \<and> i < 30 \<longrightarrow> dr ! i = Fin 0) \<and>
              (\<forall>i. 20 \<le> i \<and> i < 30 \<longrightarrow> vol ! i = Fin 0) \<and>
              series_mean dr = Fin 0 \<and> series_std dr = Fin 0"
    by blast
  have dr: "dr = pct_change (map Fin ?cs)"
    using d(1,2) cm_cols(1)[OF d(1)] b by (simp add: bar_table_def)
  have 0: "dr ! 0 = NaN" unfolding dr by (rule pct_change_Fin_0) simp
  from a have e: "dr ! 1 = Fin 0" "dr ! 29 = Fin 0" "vol ! 20 = Fin 0" "vol ! 29 = Fin 0"
    "series_std dr = Fin 0" by simp_all
  from b d 0 e show ?thesis
    by (intro conjI exI[of _ df'] exI[of _ dr] exI[of _ vol] exI[of _ s]) simp_all
qed

text \<open>
  C8. For a bar sequence with at least two rows, positive closes and a Volume column,
  \<^verbatim>\<open>display_key_metrics\<close> returns without raising and the total return it computes
  for display is the percentage \<open>(close[last] - close[first]) / close[first] * 100\<close>,
  equally \<open>(close[last] / close[first] - 1) * 100\<close>; it is positive when the closes
  are strictly increasing.
\<close>

theorem total_return_percent:
  assumes "bar_table df cs" and "2 \<le> length cs" and "\<forall>c \<in> set cs. 0 < c"
    and "has_col df ''Volume''"
  shows "\<exists>km r. display_key_metrics df stock_info = Inr km \<and> total_return km = Fin r \<and>
           r = (last cs - hd cs) / hd cs * 100 \<and>
           r = (last cs / hd cs - 1) * 100 \<and>
           (sorted_wrt (<) cs \<longrightarrow> 0 < r)"
proof -
  have ne: "cs \<noteq> []" using assms(2) by auto
  have nz: "\<forall>c \<in> set cs. c \<noteq> 0" using assms(3) by auto
  have h: "0 < hd cs" using assms(3) ne by simp
  obtain km where km: "display_key_metrics df stock_info = Inr km"
      "total_return km = Fin ((last cs - hd cs) / hd cs * 100)"
    using display_key_metrics_total_return[OF assms(1,2) nz assms(4)] by blast
  have e: "(last cs - hd cs) / hd cs * 100 = (last cs / hd cs - 1) * 100"
    using h by (simp add: diff_divide_distrib)
  have p: "0 < (last cs - hd cs) / hd cs * 100" if s: "sorted_wrt (<) cs"
  proof -
    have "cs ! 0 < cs ! (length cs - 1)"
      using assms(2) by (intro sorted_wrt_nth_less[OF s]) auto
    then have "hd cs < last cs" using ne by (simp add: hd_conv_nth last_conv_nth)
    with h show ?thesis by simp
  qed
  from km e p show ?thesis by blast
qed

theorem total_return_percent_witness:
  "bar_table (table_of [10, 11, 12]) [10, 11, 12] \<and> (2::nat) \<le> length [10, 11, 12 :: real] \<and>
   list_all (\<lambda>c. 0 < c) [10, 11, 12 :: real] \<and> has_col (table_of [10, 11, 12]) ''Volume'' \<and>
   sorted_wrt (<) [10, 11, 12 :: real] \<and>
   (\<exists>km. display_key_metrics (table_of [10, 11, 12]) (Some []) = Inr km \<and> total_return km = Fin 20)"
proof -
  let ?cs = "[10, 11, 12 :: real]"
  have b: "bar_table (table_of ?cs) ?cs" by (rule bar_table_table_of)
  have l: "2 \<le> length ?cs" by simp
  have p: "\<forall>c \<in> set ?cs. 0 < c" by simp
  have v: "has_col (table_of ?cs) ''Volume''" by (simp add: has_col_def table_of_def)
  have s: "sorted_wrt (<) ?cs" by simp
  from total_return_percent[OF b l p v, of "Some []"] obtain km r where
    d: "display_key_metrics (table_of ?cs) (Some []) = Inr km" "total_return km = Fin r"
       "r = (last ?cs - hd ?cs) / hd ?cs * 100"
    by blast
  from d(3) have "r = 20" by simp
  with b v s d show ?thesis by (intro conjI exI[of _ km]) simp_all
qed

text \<open>
  The total return of C8 is the quotient times 100, not the quotient: for the closes 10
  and 11 the function computes 10, shown as a percentage, while
  \<open>(close[last] - close[first]) / close[first]\<close> is 1/10.
\<close>

theorem total_return_ratio_counterexample:
  "\<exists>km. display_key_metrics (table_of [10, 11]) (Some []) = Inr km \<and>
         total_return km = Fin 10 \<and> total_return km \<noteq> Fin ((11 - 10) / 10)"
  by (simp add: display_key_metrics_def then_do_def get_col_def table_of_def iloc_def
      has_col_def f64_sub_def)

text \<open>
  C9. A request with an empty ticker is answered before any fetch by the warning that
  asks for a ticker. A request whose fetch raises, or returns a table without rows, is
  answered by one and the same error message naming the ticker, followed by the tip.
  The warning differs from the error message, and in none of these cases does the
  script raise.
\<close>

theorem failed_request_messages:
  "main_logic yf True [] time_period show_returns = Inr [StWarning missing_msg] \<and>
   (ticker_input \<noteq> [] \<longrightarrow>
      (\<forall>e. yf (upper ticker_input) time_period = Inl e \<longrightarrow>
         main_logic yf True ticker_input time_period show_returns =
         Inr [StError (unable_msg ticker_input), StInfo tip_msg]) \<and>
      (\<forall>hist stock_info. yf (upper ticker_input) time_period = Inr (hist, stock_info) \<and> df_empty hist \<longrightarrow>
         main_logic yf True ticker_input time_period show_returns =
         Inr [StError (unable_msg ticker_input), StInfo tip_msg])) \<and>
   [StWarning missing_msg] \<noteq> [StError (unable_msg ticker_input), StInfo tip_msg] \<and>
   missing_msg \<noteq> unable_msg ticker_input"
proof -
  have "missing_msg \<noteq> unable_msg ticker_input"
    by (simp add: missing_msg_def unable_msg_def)
  then show ?thesis
    by (auto simp: main_logic_blank main_logic_raises main_logic_empty_history)
qed

theorem failed_request_messages_witness:
  "main_logic (\<lambda>t p. Inl (OtherError ''connection reset'')) True [] ''1y'' True =
     Inr [StWarning missing_msg] \<and>
   ''zzzz'' \<noteq> [] \<and>
   main_logic (\<lambda>t p. Inl (OtherError ''connection reset'')) True ''zzzz'' ''1y'' True =
     Inr [StError (unable_msg ''zzzz''), StInfo tip_msg] \<and>
   df_empty \<lparr>index = [], columns = []\<rparr> \<and>
   main_logic (\<lambda>t p. Inr (\<lparr>index = [], columns = []\<rparr>, [])) True ''zzzz'' ''1y'' True =
     Inr [StError (unable_msg ''zzzz''), StInfo tip_msg]"
proof -
  let ?raise = "\<lambda>(t::string) (p::string). (Inl (OtherError ''connection reset'') :: py_error + dataframe \<times> info)"
  let ?none = "\<lambda>(t::string) (p::string). (Inr (\<lparr>index = [], columns = []\<rparr>, []) :: py_error + dataframe \<times> info)"
  have e: "df_empty \<lparr>index = [], columns = []\<rparr>" by (simp add: df_empty_def)
  have n: "''zzzz'' \<noteq> []" by simp
  from failed_request_messages[of ?raise "''1y''" True "''zzzz''"] n
  have 1: "main_logic ?raise True [] ''1y'' True = Inr [StWarning missing_msg]"
    and 2: "main_logic ?raise True ''zzzz'' ''1y'' True =
            Inr [StError (unable_msg ''zzzz''), StInfo tip_msg]"
    by blast+
  from failed_request_messages[of ?none "''1y''" True "''zzzz''"] n e
  have 3: "main_logic ?none True ''zzzz'' ''1y'' True =
           Inr [StError (unable_msg ''zzzz''), StInfo tip_msg]"
    by blast
  from 1 2 3 e n show ?thesis by blast
qed

text \<open>
  The three fetch failures of C9 are not told apart: a provider that raises (a transient
  failure) and a provider that returns an empty history (an unknown ticker, or no data
  for the period) lead to exactly the same output.
\<close>

theorem fetch_failures_same_message_counterexample:
  "main_logic (\<lambda>t p. Inl (OtherError ''connection reset'')) True ''zzzz'' ''1y'' True =
     Inr [StError (unable_msg ''zzzz''), StInfo tip_msg] \<and>
   main_logic (\<lambda>t p. Inr (\<lparr>index = [], columns = []\<rparr>, [])) True ''zzzz'' ''1y'' True =
     Inr [StError (unable_msg ''zzzz''), StInfo tip_msg]"
  by (simp add: main_logic_def get_stock_data_def df_empty_def)

text \<open>
  A history of a single row is not one of the failures above: the request goes on to
  \<^verbatim>\<open>display_key_metrics\<close>, whose \<^verbatim>\<open>iloc[-2]\<close> raises IndexError.
\<close>

lemma one_row_history_index_error:
  "main_logic (\<lambda>t p. Inr (table_of [10], [])) True ''zzzz'' ''1y'' True = Inl IndexError"
proof -
  let ?t = "table_of [10]"
  have b: "bar_table ?t [10]" by (rule bar_table_table_of)
  then have c: "get_col ?t ''Close'' = Inr (map Fin [10])" by (simp add: bar_table_def)
  have ne: "index ?t \<noteq> []" by (simp add: table_of_def)
  obtain df' where r: "calculate_metrics ?t = Inr (Some df')"
    using calculate_metrics_value[OF ne c] by blast
  have "get_col df' ''Close'' = get_col ?t ''Close''"
    by (rule cm_other[OF r]) (simp add: derived_names_def)
  with c have c': "get_col df' ''Close'' = Inr [Fin 10]" by simp
  have e: "\<not> df_empty ?t" by (simp add: df_empty_def table_of_def)
  show ?thesis
    using e by (simp add: main_logic_def get_stock_data_def then_do_def r
        display_key_metrics_def c' iloc_def)
qed

end
